theory Spec2Isabelle
  imports Main "HOL-Library.AList"
begin

section \<open>Python exceptions\<close>

text \<open>
  The exceptions the modelled functions of \<^verbatim>\<open>python/jittor/__init__.py\<close> can raise.
  A function that can raise returns \<open>py_error + 'a\<close>, with \<open>Inl\<close> for the exception.
  \<open>NativeError\<close> is an exception raised by code outside the file (the compiled core,
  pickle, torch), whose class the file does not fix. \<open>Unmodelled\<close> is no exception: it
  marks a point where what happens next is decided by an object outside the model (an
  attribute of a tensor, a method of a subclass), and nothing is claimed about it.
\<close>

datatype py_error =
    AssertionError
  | IndexError
  | ValueError
  | AttributeError
  | TypeError
  | RuntimeError string
  | OSError
  | NativeError
  | Unmodelled

section \<open>flatten\<close>






section \<open>Process exit hook\<close>

text \<open>
  \<^verbatim>\<open>ExitHooks\<close>: the recorded exit code and uncaught exception. Python's \<^verbatim>\<open>None\<close> is
  \<open>None\<close>; \<^verbatim>\<open>sys.exit\<close> takes an integer, a message or \<^verbatim>\<open>None\<close>.
\<close>

datatype exit_arg = ExitInt int | ExitMsg string

record exit_hooks =
  exit_code :: "exit_arg option"
  exception :: "py_error option"

text \<open>\<^verbatim>\<open>ExitHooks.__init__\<close>\<close>

definition ExitHooks_init :: exit_hooks where
  "ExitHooks_init = \<lparr>exit_code = None, exception = None\<rparr>"

text \<open>
  \<^verbatim>\<open>ExitHooks.exit(code=0)\<close> stores the code, then calls the original \<^verbatim>\<open>sys.exit\<close>,
  which unwinds the interpreter; the stored value is what the exit hook reads later.
\<close>

definition ExitHooks_exit :: "exit_arg option \<Rightarrow> exit_hooks \<Rightarrow> exit_hooks" where
  "ExitHooks_exit code h = h\<lparr>exit_code := code\<rparr>"

text \<open>\<^verbatim>\<open>ExitHooks.exc_handler(exc_type, exc, *args)\<close>, installed as \<^verbatim>\<open>sys.excepthook\<close>.\<close>

definition exc_handler :: "py_error \<Rightarrow> exit_hooks \<Rightarrow> exit_hooks" where
  "exc_handler exc h = h\<lparr>exception := Some exc\<rparr>"

text \<open>
  The process at shutdown: the hooks object and the calls of \<^verbatim>\<open>core.sync_all\<close> made so
  far, each with its argument.
\<close>

record process =
  hooks :: exit_hooks
  sync_all_calls :: "bool list"

text \<open>\<^verbatim>\<open>jittor_exit\<close>, registered with \<^verbatim>\<open>atexit\<close>.\<close>

definition jittor_exit :: "process \<Rightarrow> process" where
  "jittor_exit p =
     (if exit_code (hooks p) \<noteq> None then p
      else if exception (hooks p) \<noteq> None then p
      else p\<lparr>sync_all_calls := sync_all_calls p @ [True]\<rparr>)"

section \<open>Scoped flags\<close>

text \<open>
  Modelled from the spec: the engine's global \<^verbatim>\<open>flags\<close> object belongs to the compiled
  core, which is not part of the file. It holds one value per flag name it knows;
  reading or writing a name it does not know raises, and so does writing a value the
  flag does not accept. \<open>has_flag\<close> and \<open>accepts\<close> describe the core; the values are
  the state.
\<close>

record 'v flags_native =
  has_flag :: "string \<Rightarrow> bool"
  accepts :: "string \<Rightarrow> 'v \<Rightarrow> bool"

definition getattr_flags ::
  "'v flags_native \<Rightarrow> (string \<Rightarrow> 'v) \<Rightarrow> string \<Rightarrow> py_error + 'v" where
  "getattr_flags N fl k = (if has_flag N k then Inr (fl k) else Inl NativeError)"

definition setattr_flags ::
  "'v flags_native \<Rightarrow> (string \<Rightarrow> 'v) \<Rightarrow> string \<Rightarrow> 'v \<Rightarrow> py_error + (string \<Rightarrow> 'v)" where
  "setattr_flags N fl k v =
     (if has_flag N k \<and> accepts N k v then Inr (fl(k := v)) else Inl NativeError)"

text \<open>
  \<^verbatim>\<open>flag_scope.__exit__\<close>: \<^verbatim>\<open>for k,v in self.flags_bk.items(): setattr(flags, k, v)\<close>.
  The result is the exception raised, if any, and the flags as they are left.
\<close>

fun flag_scope_exit ::
  "'v flags_native \<Rightarrow> (string \<times> 'v) list \<Rightarrow> (string \<Rightarrow> 'v) \<Rightarrow>
     py_error option \<times> (string \<Rightarrow> 'v)" where
  "flag_scope_exit N [] fl = (None, fl)"
| "flag_scope_exit N ((k, v) # flags_bk) fl =
     (case setattr_flags N fl k v of
        Inl e \<Rightarrow> (Some e, fl)
      | Inr fl' \<Rightarrow> flag_scope_exit N flags_bk fl')"

text \<open>
  The loop of \<^verbatim>\<open>flag_scope.__enter__\<close>:
  \<^verbatim>\<open>flags_bk[k] = getattr(flags, k); setattr(flags, k, v)\<close> for every override. The
  result is the exception raised, if any, the backup dict and the flags at that point.
\<close>

fun apply_flags ::
  "'v flags_native \<Rightarrow> (string \<times> 'v) list \<Rightarrow> (string \<times> 'v) list \<Rightarrow> (string \<Rightarrow> 'v) \<Rightarrow>
     py_error option \<times> (string \<times> 'v) list \<times> (string \<Rightarrow> 'v)" where
  "apply_flags N [] flags_bk fl = (None, flags_bk, fl)"
| "apply_flags N ((k, v) # jt_flags) flags_bk fl =
     (case getattr_flags N fl k of
        Inl e \<Rightarrow> (Some e, flags_bk, fl)
      | Inr old \<Rightarrow>
          (case setattr_flags N fl k v of
             Inl e \<Rightarrow> (Some e, AList.update k old flags_bk, fl)
           | Inr fl' \<Rightarrow> apply_flags N jt_flags (AList.update k old flags_bk) fl'))"

text \<open>
  \<^verbatim>\<open>flag_scope.__enter__\<close>: on an exception in the loop, \<^verbatim>\<open>self.__exit__()\<close> runs and
  the exception is raised again (an exception of \<^verbatim>\<open>__exit__\<close> itself takes its place).
\<close>

definition flag_scope_enter ::
  "'v flags_native \<Rightarrow> (string \<times> 'v) list \<Rightarrow> (string \<Rightarrow> 'v) \<Rightarrow>
     py_error option \<times> (string \<times> 'v) list \<times> (string \<Rightarrow> 'v)" where
  "flag_scope_enter N jt_flags fl =
     (case apply_flags N jt_flags [] fl of
        (None, flags_bk, fl') \<Rightarrow> (None, flags_bk, fl')
      | (Some e, flags_bk, fl') \<Rightarrow>
          (case flag_scope_exit N flags_bk fl' of
             (None, fl'') \<Rightarrow> (Some e, flags_bk, fl'')
           | (Some e', fl'') \<Rightarrow> (Some e', flags_bk, fl'')))"


section \<open>Log capture\<close>

text \<open>
  Modelled from the spec: the logger \<^verbatim>\<open>LOG\<close> of the compiled core. While capturing it
  buffers the log lines; \<open>capture_starts\<close> counts the calls of
  \<^verbatim>\<open>LOG.log_capture_start\<close>.
\<close>

record log_native =
  capturing :: bool
  capture_starts :: nat
  captured :: "string list"

definition log_capture_start :: "log_native \<Rightarrow> log_native" where
  "log_capture_start L = L\<lparr>capturing := True, capture_starts := Suc (capture_starts L), captured := []\<rparr>"

definition log_capture_stop :: "log_native \<Rightarrow> log_native" where
  "log_capture_stop L = L\<lparr>capturing := False\<rparr>"

definition log_capture_read :: "log_native \<Rightarrow> string list" where
  "log_capture_read L = captured L"

text \<open>
  The globals the scope works on: the module-level guard \<^verbatim>\<open>single_log_capture\<close>
  (\<^verbatim>\<open>None\<close> or \<^verbatim>\<open>True\<close>), the logger and the flags.
\<close>

record 'v globals =
  single_log_capture :: "bool option"
  LOG :: log_native
  flag_values :: "string \<Rightarrow> 'v"

text \<open>\<^verbatim>\<open>not single_log_capture\<close>: \<^verbatim>\<open>None\<close> and \<^verbatim>\<open>False\<close> are falsy.\<close>

definition truthy :: "bool option \<Rightarrow> bool" where
  "truthy x = (x = Some True)"

text \<open>
  \<^verbatim>\<open>log_capture_scope.__enter__\<close>. On success it returns the (empty) list
  \<^verbatim>\<open>self.logs\<close> and the backup dict of the inner flag scope.
\<close>

definition log_capture_scope_enter ::
  "'v flags_native \<Rightarrow> (string \<times> 'v) list \<Rightarrow> 'v globals \<Rightarrow>
     (py_error + string list \<times> (string \<times> 'v) list) \<times> 'v globals" where
  "log_capture_scope_enter N jt_flags g =
     (if truthy (single_log_capture g) then (Inl AssertionError, g)
      else
        let g1 = g\<lparr>single_log_capture := Some True\<rparr>;
            logs = [];
            g2 = g1\<lparr>LOG := log_capture_start (LOG g1)\<rparr>
        in case flag_scope_enter N jt_flags (flag_values g2) of
             (None, flags_bk, fl) \<Rightarrow> (Inr (logs, flags_bk), g2\<lparr>flag_values := fl\<rparr>)
           | (Some e, flags_bk, fl) \<Rightarrow>
               (Inl e, g2\<lparr>flag_values := fl, LOG := log_capture_stop (LOG g2),
                           single_log_capture := None\<rparr>))"

text \<open>
  \<^verbatim>\<open>log_capture_scope.__exit__\<close>, given \<^verbatim>\<open>self.logs\<close> and the inner backup dict; it
  returns the extended \<^verbatim>\<open>self.logs\<close>.
\<close>

definition log_capture_scope_exit ::
  "'v flags_native \<Rightarrow> string list \<Rightarrow> (string \<times> 'v) list \<Rightarrow> 'v globals \<Rightarrow>
     (py_error + string list) \<times> 'v globals" where
  "log_capture_scope_exit N logs flags_bk g =
     (case flag_scope_exit N flags_bk (flag_values g) of
        (Some e, fl) \<Rightarrow> (Inl e, g\<lparr>flag_values := fl\<rparr>)
      | (None, fl) \<Rightarrow>
          (let g1 = g\<lparr>flag_values := fl\<rparr>;
               g2 = g1\<lparr>LOG := log_capture_stop (LOG g1)\<rparr>
           in (Inr (logs @ log_capture_read (LOG g2)), g2\<lparr>single_log_capture := None\<rparr>)))"

section \<open>The Module tree\<close>

text \<open>
  A \<^verbatim>\<open>Module\<close> object is its class and its \<^verbatim>\<open>__dict__\<close>: the attributes in insertion
  order, each name once. An attribute value is a Module, a tensor (\<^verbatim>\<open>Var\<close>, a handle
  into the store of the core: the handle is the identity \<^verbatim>\<open>id(p)\<close>), a tuple, a
  boolean, the dict \<^verbatim>\<open>backup_grad_state\<close> (from \<^verbatim>\<open>id(p)\<close> to a boolean), a bound method,
  or any other object (\<open>VOther\<close>), of which nothing is assumed. Children are values, so
  the relation of parent and child is a tree.

  \<open>Sequential_class\<close> is \<^verbatim>\<open>nn.Sequential\<close>, the one subclass the file names; it keeps its
  members in the tuple attribute \<^verbatim>\<open>layers\<close>. The methods below are those of
  \<^verbatim>\<open>class Module\<close> as the file defines them; what a subclass overrides is outside the
  model.
\<close>

datatype cls = Module_class | Sequential_class

datatype val =
    VModule module
  | VVar nat
  | VTuple "val list"
  | VBool bool
  | VDict "(nat \<times> bool) list"
  | VMethod string
  | VOther
and module = Module (cls_of: cls) (dict: "(string \<times> val) list")

text \<open>\<^verbatim>\<open>isinstance(v, Module)\<close> and \<^verbatim>\<open>isinstance(p, Var)\<close>\<close>

fun is_Module :: "val \<Rightarrow> bool" where
  "is_Module (VModule m) = True"
| "is_Module v = False"


subsection \<open>dfs\<close>

text \<open>
  What a callback returns: \<^verbatim>\<open>None\<close>, a boolean, an integer, or some other object that
  does not compare equal to \<^verbatim>\<open>False\<close>. \<^verbatim>\<open>ret == False\<close> holds for \<^verbatim>\<open>False\<close> and for
  \<^verbatim>\<open>0\<close>.
\<close>

datatype py_ret = RetNone | RetBool bool | RetInt int | RetOther

definition eq_False :: "py_ret \<Rightarrow> bool" where
  "eq_False ret = (ret = RetBool False \<or> ret = RetInt 0)"

text \<open>
  A callback reads \<^verbatim>\<open>(parents, k, v, n)\<close> and works on the state \<open>'s\<close> it closes over
  (the lists it appends to, the store of the core). \<^verbatim>\<open>callback_leave\<close> is \<^verbatim>\<open>None\<close> or a
  function.
\<close>

type_synonym 's callback =
  "module list \<Rightarrow> string option \<Rightarrow> module \<Rightarrow> nat \<Rightarrow> 's \<Rightarrow> py_ret \<times> 's"

type_synonym 's callback_leave =
  "module list \<Rightarrow> string option \<Rightarrow> module \<Rightarrow> nat \<Rightarrow> 's \<Rightarrow> 's"

text \<open>
  \<^verbatim>\<open>Module.dfs(self, parents, k, callback, callback_leave=None)\<close>. \<open>dfs_items\<close> is the
  loop \<^verbatim>\<open>for k,v in self.__dict__.items()\<close>: it binds the function's own variable \<^verbatim>\<open>k\<close>
  at every item, Module or not, and returns it with the state, since the call of
  \<^verbatim>\<open>callback_leave\<close> after the loop reads \<^verbatim>\<open>k\<close>. Around the recursive call \<^verbatim>\<open>self\<close> is
  appended to \<^verbatim>\<open>parents\<close> and popped again.
\<close>

function dfs ::
  "'s callback \<Rightarrow> 's callback_leave option \<Rightarrow> module list \<Rightarrow> string option \<Rightarrow> module \<Rightarrow>
     's \<Rightarrow> 's"
and dfs_items ::
  "'s callback \<Rightarrow> 's callback_leave option \<Rightarrow> module list \<Rightarrow> module \<Rightarrow>
     (string \<times> val) list \<Rightarrow> string option \<Rightarrow> 's \<Rightarrow> string option \<times> 's" where
  "dfs callback callback_leave parents k self s =
     (let n_children = length (filter is_Module (map snd (dict self))) in
      case callback parents k self n_children s of
        (ret, s1) \<Rightarrow>
          if eq_False ret then s1
          else
            (case dfs_items callback callback_leave parents self (dict self) k s1 of
               (k', s2) \<Rightarrow>
                 (case callback_leave of
                    None \<Rightarrow> s2
                  | Some leave \<Rightarrow> leave parents k' self n_children s2)))"
| "dfs_items callback callback_leave parents self [] k s = (k, s)"
| "dfs_items callback callback_leave parents self ((k', v) # items) k s =
     (case v of
        VModule m \<Rightarrow>
          dfs_items callback callback_leave parents self items (Some k')
            (dfs callback callback_leave (parents @ [self]) (Some k') m s)
      | _ \<Rightarrow> dfs_items callback callback_leave parents self items (Some k') s)"
  by pat_completeness auto
termination
  apply (relation "measure (\<lambda>x. case x of
            Inl (cb, cbl, ps, k, self, s) \<Rightarrow> 2 * size self + 2
          | Inr (cb, cbl, ps, self, items, k, s) \<Rightarrow>
              2 * size_list (size_prod (\<lambda>_. 0) size) items + 1)")
    apply simp_all
  subgoal for callback parents k self s by (cases self) simp
  done

declare dfs.simps [simp del]

subsection \<open>modules and children\<close>



text \<open>
  \<^verbatim>\<open>Module.children\<close>: at depth one the callback appends the node and returns
  \<^verbatim>\<open>False\<close>; everywhere else it returns \<^verbatim>\<open>None\<close>.
\<close>

definition children_callback :: "module list callback" where
  "children_callback parents k v n cd =
     (if length parents = 1 then (RetBool False, cd @ [v]) else (RetNone, cd))"

definition children :: "module \<Rightarrow> module list" where
  "children self = dfs children_callback None [] None self []"



text \<open>The Module-valued attributes of a node, with their names, in \<^verbatim>\<open>__dict__\<close> order.\<close>

fun child_modules :: "(string \<times> val) list \<Rightarrow> (string \<times> module) list" where
  "child_modules [] = []"
| "child_modules ((k, VModule m) # items) = (k, m) # child_modules items"
| "child_modules ((k, v) # items) = child_modules items"

subsection \<open>A recording traversal\<close>

text \<open>
  Callbacks that only record their calls, with the arguments; the enter callback
  returns \<^verbatim>\<open>False\<close> where \<open>stop\<close> says so and \<^verbatim>\<open>None\<close> elsewhere.
\<close>

datatype event =
    Enter "module list" "string option" module nat
  | Leave "module list" "string option" module nat

definition record_enter ::
  "(module list \<Rightarrow> string option \<Rightarrow> module \<Rightarrow> nat \<Rightarrow> bool) \<Rightarrow> event list callback" where
  "record_enter stop parents k v n tr =
     (if stop parents k v n then RetBool False else RetNone, tr @ [Enter parents k v n])"

definition record_leave :: "event list callback_leave" where
  "record_leave parents k v n tr = tr @ [Leave parents k v n]"

definition dfs_trace ::
  "(module list \<Rightarrow> string option \<Rightarrow> module \<Rightarrow> nat \<Rightarrow> bool) \<Rightarrow> module \<Rightarrow> event list" where
  "dfs_trace stop self = dfs (record_enter stop) (Some record_leave) [] None self []"


subsection \<open>Tensors\<close>

text \<open>
  Modelled from the spec: a tensor (\<^verbatim>\<open>Var\<close>) is a handle owned by the compiled core,
  which is not part of the file. Of a tensor this layer reads and writes a
  gradient-tracking flag (\<^verbatim>\<open>is_stop_grad()\<close> is true when tracking is disabled), a name
  tag and the array data. The store maps every handle to the tensor it holds.
\<close>

record 'd var =
  is_stop_grad :: bool
  var_name :: string
  var_data :: 'd

type_synonym 'd store = "nat \<Rightarrow> 'd var"


text \<open>Modelled from the spec: \<^verbatim>\<open>p.name(s)\<close> sets the name tag.\<close>

definition set_name :: "nat \<Rightarrow> string \<Rightarrow> 'd store \<Rightarrow> 'd store" where
  "set_name x s vars = vars(x := (vars x)\<lparr>var_name := s\<rparr>)"



subsection \<open>parameters\<close>

text \<open>\<^verbatim>\<open>str(k)\<close> for the key \<^verbatim>\<open>k\<close>: \<^verbatim>\<open>None\<close> at the root, the attribute name below.\<close>

fun str_key :: "string option \<Rightarrow> string" where
  "str_key None = ''None''"
| "str_key (Some k) = k"

text \<open>\<^verbatim>\<open>".".join(xs)\<close>\<close>

fun join_dot :: "string list \<Rightarrow> string" where
  "join_dot [] = []"
| "join_dot [x] = x"
| "join_dot (x # y # zs) = x @ ''.'' @ join_dot (y # zs)"

text \<open>
  The inner loop of the callback of \<^verbatim>\<open>Module.parameters\<close>:
  \<^verbatim>\<open>for k2, p in v.__dict__.items(): if isinstance(p, Var): ps.append(p);
  p.name(".".join(stack[1:]+[str(k2)]))\<close>.
\<close>

fun name_vars ::
  "string list \<Rightarrow> (string \<times> val) list \<Rightarrow> nat list \<Rightarrow> 'd store \<Rightarrow> nat list \<times> 'd store" where
  "name_vars stack [] ps vars = (ps, vars)"
| "name_vars stack ((k2, VVar p) # items) ps vars =
     name_vars stack items (ps @ [p]) (set_name p (join_dot (tl stack @ [k2])) vars)"
| "name_vars stack ((k2, v) # items) ps vars = name_vars stack items ps vars"

text \<open>
  The callbacks of \<^verbatim>\<open>Module.parameters\<close>. Their state is the list \<^verbatim>\<open>ps\<close>, the list
  \<^verbatim>\<open>stack\<close> and the store. \<^verbatim>\<open>callback\<close> pushes \<^verbatim>\<open>str(k)\<close> and returns \<^verbatim>\<open>None\<close>;
  \<^verbatim>\<open>callback_leave\<close> pops (the stack is never empty there, every leave following its
  enter).
\<close>

definition parameters_callback :: "(nat list \<times> string list \<times> 'd store) callback" where
  "parameters_callback parents k v n s =
     (case s of (ps, stack, vars) \<Rightarrow>
        (case name_vars (stack @ [str_key k]) (dict v) ps vars of
           (ps', vars') \<Rightarrow> (RetNone, (ps', stack @ [str_key k], vars'))))"

definition parameters_callback_leave ::
  "(nat list \<times> string list \<times> 'd store) callback_leave" where
  "parameters_callback_leave parents k v n s =
     (case s of (ps, stack, vars) \<Rightarrow> (ps, butlast stack, vars))"

text \<open>\<^verbatim>\<open>Module.parameters\<close>: the handles collected, and the store with the names set.\<close>

definition parameters :: "module \<Rightarrow> 'd store \<Rightarrow> nat list \<times> 'd store" where
  "parameters self vars =
     (case dfs parameters_callback (Some parameters_callback_leave) [] None self ([], [], vars) of
        (ps, stack, vars') \<Rightarrow> (ps, vars'))"

text \<open>
  A manual pre-order walk, written without \<open>dfs\<close>: every tensor-valued attribute with
  the attribute names on the way to it from the root. \<open>parameters\<close> is compared with it
  below.
\<close>

fun own_params :: "string list \<Rightarrow> (string \<times> val) list \<Rightarrow> (string list \<times> nat) list" where
  "own_params path [] = []"
| "own_params path ((k2, VVar p) # items) = (path @ [k2], p) # own_params path items"
| "own_params path ((k2, v) # items) = own_params path items"

function (sequential) named_params :: "string list \<Rightarrow> module \<Rightarrow> (string list \<times> nat) list"
and named_params_items ::
  "string list \<Rightarrow> (string \<times> val) list \<Rightarrow> (string list \<times> nat) list" where
  "named_params path (Module c d) = own_params path d @ named_params_items path d"
| "named_params_items path [] = []"
| "named_params_items path ((k, VModule m) # items) =
     named_params (path @ [k]) m @ named_params_items path items"
| "named_params_items path ((k, v) # items) = named_params_items path items"
  by pat_completeness auto
termination
  by (relation "measure (\<lambda>x. case x of
            Inl (p, m) \<Rightarrow> 2 * size m
          | Inr (p, items) \<Rightarrow> 2 * size_list (size_prod (\<lambda>_. 0) size) items + 1)")
     simp_all

text \<open>Naming every tensor of such a list by its dotted path, in order.\<close>

definition name_all :: "(string list \<times> nat) list \<Rightarrow> 'd store \<Rightarrow> 'd store" where
  "name_all nps vars = foldl (\<lambda>vs (path, p). set_name p (join_dot path) vs) vars nps"

subsection \<open>Attribute access\<close>

text \<open>The names the body of \<^verbatim>\<open>class Module\<close> defines.\<close>

definition Module_methods :: "string list" where
  "Module_methods =
     [''__init__'', ''execute'', ''__call__'', ''__repr__'', ''_get_name'', ''__name__'',
      ''dfs'', ''__str__'', ''parameters'', ''modules'', ''children'', ''extra_repr'',
      ''load_parameters'', ''save'', ''load'', ''eval'', ''train'', ''mpi_param_broadcast'']"

text \<open>
  \<^verbatim>\<open>getattr(m, k)\<close> on a Module: the instance \<^verbatim>\<open>__dict__\<close> first, then the class, where
  a name the class body defines is a bound method. Beyond these, \<^verbatim>\<open>object\<close> provides
  attributes of its own, all of them with names that start with two underscores; which
  ones is the interpreter's business, so such a name is \<open>Unknown\<close>. Any other name is
  \<open>Missing\<close>: \<^verbatim>\<open>hasattr\<close> is false and \<^verbatim>\<open>getattr\<close> raises \<^verbatim>\<open>AttributeError\<close>.
\<close>

datatype lookup = Found val | Missing | Unknown

definition py_getattr :: "module \<Rightarrow> string \<Rightarrow> lookup" where
  "py_getattr m k =
     (case map_of (dict m) k of
        Some v \<Rightarrow> Found v
      | None \<Rightarrow>
          if k \<in> set Module_methods then Found (VMethod k)
          else if take 2 k = ''__'' then Unknown
          else Missing)"

text \<open>
  \<^verbatim>\<open>setattr(m, k, v)\<close>: an existing name keeps its place in \<^verbatim>\<open>__dict__\<close>, a new one goes
  to the end.
\<close>

definition py_setattr :: "module \<Rightarrow> string \<Rightarrow> val \<Rightarrow> module" where
  "py_setattr m k v = Module (cls_of m) (AList.update k v (dict m))"

subsection \<open>eval and train\<close>

text \<open>
  The callback of \<^verbatim>\<open>eval\<close> and \<^verbatim>\<open>train\<close> at one node:
  \<^verbatim>\<open>if isinstance(v, Module) and hasattr(v, "is_train"): v.is_train = b\<close>.
\<close>

definition touch_is_train :: "bool \<Rightarrow> module \<Rightarrow> module" where
  "touch_is_train b v =
     (case py_getattr v ''is_train'' of
        Missing \<Rightarrow> v
      | _ \<Rightarrow> py_setattr v ''is_train'' (VBool b))"









text \<open>One call after another: the second runs on what the first returns.\<close>

definition and_then :: "py_error + 'a \<Rightarrow> ('a \<Rightarrow> py_error + 'b) \<Rightarrow> py_error + 'b" where
  "and_then r f = (case r of Inl e \<Rightarrow> Inl e | Inr x \<Rightarrow> f x)"






definition ex_tree :: module where
  "ex_tree = Module Module_class [(''w'', VVar 0), (''is_train'', VBool True),
     (''sub'', VModule (Module Module_class [(''b'', VVar 1), (''w2'', VVar 0)]))]"

subsection \<open>Examples for the scopes\<close>

text \<open>
  A core with two integer flags, which accepts every value that is not negative; all
  flags at 0; a body that changes both flags and then raises.
\<close>

definition ex_native :: "int flags_native" where
  "ex_native = \<lparr>has_flag = (\<lambda>k. k = ''log_v'' \<or> k = ''use_cuda''), accepts = (\<lambda>k v. 0 \<le> v)\<rparr>"

definition ex_flags :: "string \<Rightarrow> int" where
  "ex_flags = (\<lambda>k. 0)"


definition ex_globals :: "int globals" where
  "ex_globals = \<lparr>single_log_capture = None,
                  LOG = \<lparr>capturing = False, capture_starts = 0, captured = []\<rparr>,
                  flag_values = ex_flags\<rparr>"

subsection \<open>load_parameters\<close>

text \<open>\<^verbatim>\<open>key.split('.')\<close>: the pieces between the separators; never the empty list.\<close>

fun split_on :: "char \<Rightarrow> string \<Rightarrow> string list" where
  "split_on c [] = [[]]"
| "split_on c (x # xs) =
     (if x = c then [] # split_on c xs
      else (case split_on c xs of
              w # ws \<Rightarrow> (x # w) # ws
            | [] \<Rightarrow> [[x]]))"

text \<open>
  \<^verbatim>\<open>np.int(k)\<close>, which is the built-in \<^verbatim>\<open>int\<close>: white space around the number is dropped,
  then comes an optional sign and decimal digits, where single underscores may stand
  between digits; anything else raises \<^verbatim>\<open>ValueError\<close>. Python also reads the decimal
  digits and the white space of other scripts, and its versions differ on the four
  separator controls; a string with a byte outside ASCII or with one of these controls
  is left \<open>Unmodelled\<close>.
\<close>

definition is_space :: "char \<Rightarrow> bool" where
  "is_space c = (of_char c \<in> {9, 10, 11, 12, 13, 32 :: nat})"

definition outside_model :: "char \<Rightarrow> bool" where
  "outside_model c = (128 \<le> (of_char c :: nat) \<or> of_char c \<in> {28, 29, 30, 31 :: nat})"

definition strip :: "string \<Rightarrow> string" where
  "strip s = rev (dropWhile is_space (rev (dropWhile is_space s)))"

definition digit_val :: "char \<Rightarrow> nat option" where
  "digit_val c =
     (if 48 \<le> (of_char c :: nat) \<and> (of_char c :: nat) \<le> 57 then Some (of_char c - 48) else None)"

fun parse_digits :: "string \<Rightarrow> nat \<Rightarrow> bool \<Rightarrow> nat option" where
  "parse_digits [] acc after_digit = (if after_digit then Some acc else None)"
| "parse_digits (c # cs) acc after_digit =
     (if c = CHR ''_'' then (if after_digit then parse_digits cs acc False else None)
      else (case digit_val c of
              None \<Rightarrow> None
            | Some d \<Rightarrow> parse_digits cs (10 * acc + d) True))"

definition py_int :: "string \<Rightarrow> py_error + int" where
  "py_int s =
     (if list_ex outside_model s then Inl Unmodelled
      else
        (case strip s of
           [] \<Rightarrow> Inl ValueError
         | c # cs \<Rightarrow>
             if c = CHR ''-'' then
               (case parse_digits cs 0 False of
                  None \<Rightarrow> Inl ValueError
                | Some n \<Rightarrow> Inr (- int n))
             else if c = CHR ''+'' then
               (case parse_digits cs 0 False of
                  None \<Rightarrow> Inl ValueError
                | Some n \<Rightarrow> Inr (int n))
             else
               (case parse_digits (c # cs) 0 False of
                  None \<Rightarrow> Inl ValueError
                | Some n \<Rightarrow> Inr (int n))))"

text \<open>
  \<^verbatim>\<open>v.layers\<close> of a Sequential, and indexing that tuple as Python does (a negative index
  counts from the end).
\<close>

definition layers_of :: "module \<Rightarrow> val list option" where
  "layers_of m = (case map_of (dict m) ''layers'' of Some (VTuple ls) \<Rightarrow> Some ls | _ \<Rightarrow> None)"

definition tuple_at :: "val list \<Rightarrow> int \<Rightarrow> py_error + val" where
  "tuple_at ls i =
     (if 0 \<le> i \<and> i < int (length ls) then Inr (ls ! nat i)
      else if i < 0 \<and> - int (length ls) \<le> i then Inr (ls ! nat (int (length ls) + i))
      else Inl IndexError)"

text \<open>
  The inner loop of \<^verbatim>\<open>load_parameters\<close>, \<^verbatim>\<open>for k in key_\<close>: the walk from \<^verbatim>\<open>self\<close> along
  the pieces of the key. \<open>Inr None\<close> is \<^verbatim>\<open>end = 1\<close>, \<open>Inr (Some v)\<close> the object reached.

  Modelled from the spec: \<^verbatim>\<open>nn.Sequential\<close> is a class of \<^verbatim>\<open>nn\<close>, not of this file; of its
  \<^verbatim>\<open>v[i]\<close> the spec says that sequence-typed containers are indexed numerically, which is
  \<^verbatim>\<open>self.layers[i]\<close> here.

  \<^verbatim>\<open>hasattr(v, k)\<close> on an object that is no Module (a tensor, a tuple, a method) depends on
  the attributes of built-in and native types and is left \<open>Unmodelled\<close>.
\<close>

fun resolve :: "val \<Rightarrow> string list \<Rightarrow> py_error + val option" where
  "resolve v [] = Inr (Some v)"
| "resolve v (k # key') =
     (case v of
        VModule m \<Rightarrow>
          if cls_of m = Sequential_class then
            (case py_int k of
               Inl e \<Rightarrow> Inl e
             | Inr i \<Rightarrow>
                 (case layers_of m of
                    None \<Rightarrow> Inl Unmodelled
                  | Some layers \<Rightarrow>
                      if i \<ge> int (length layers) then Inr None
                      else (case tuple_at layers i of
                              Inl e \<Rightarrow> Inl e
                            | Inr v' \<Rightarrow> resolve v' key')))
          else
            (case py_getattr m k of
               Found v' \<Rightarrow> resolve v' key'
             | Missing \<Rightarrow> Inr None
             | Unknown \<Rightarrow> Inl Unmodelled)
      | _ \<Rightarrow> Inl Unmodelled)"

text \<open>
  A value of the parameter mapping: a numpy array, a list, a tensor of this framework, a
  torch tensor, or anything else. The payload \<open>'d\<close> is the array the value stands for.
\<close>

datatype 'd pval = NdArray 'd | PyList 'd | JtVar nat | TorchTensor 'd | PyOther

text \<open>
  The argument of \<^verbatim>\<open>v.assign\<close> in the three branches: \<^verbatim>\<open>array(params[key])\<close> for an
  array or a list, the tensor itself, and \<^verbatim>\<open>array(params[key].cpu().detach().numpy())\<close>
  otherwise, which raises \<^verbatim>\<open>AttributeError\<close> on a value that has no \<^verbatim>\<open>cpu\<close>.
\<close>

definition param_data :: "'d store \<Rightarrow> 'd pval \<Rightarrow> py_error + 'd" where
  "param_data st value =
     (case value of
        NdArray d \<Rightarrow> Inr d
      | PyList d \<Rightarrow> Inr d
      | JtVar j \<Rightarrow> Inr (var_data (st j))
      | TorchTensor d \<Rightarrow> Inr d
      | PyOther \<Rightarrow> Inl AttributeError)"

text \<open>Modelled from the spec: \<^verbatim>\<open>v.assign(x)\<close> on a tensor gives it the data of \<open>x\<close>.\<close>

definition assign :: "nat \<Rightarrow> 'd \<Rightarrow> 'd store \<Rightarrow> 'd store" where
  "assign i d st = st(i := (st i)\<lparr>var_data := d\<rparr>)"

text \<open>
  \<^verbatim>\<open>v.assign(...)\<close> on the object the walk has reached. The attribute \<^verbatim>\<open>assign\<close> is looked
  up first: \<^verbatim>\<open>class Module\<close> defines none, and a tuple, a boolean, a dict and a method have
  none, so there the call raises \<^verbatim>\<open>AttributeError\<close>.
\<close>

definition assign_value :: "val \<Rightarrow> 'd pval \<Rightarrow> 'd store \<Rightarrow> py_error + 'd store" where
  "assign_value v value st =
     (case v of
        VVar i \<Rightarrow>
          (case param_data st value of
             Inl e \<Rightarrow> Inl e
           | Inr d \<Rightarrow> Inr (assign i d st))
      | VModule m \<Rightarrow>
          if cls_of m = Module_class \<and> py_getattr m ''assign'' = Missing
          then Inl AttributeError else Inl Unmodelled
      | VTuple ls \<Rightarrow> Inl AttributeError
      | VBool b \<Rightarrow> Inl AttributeError
      | VDict d \<Rightarrow> Inl AttributeError
      | VMethod f \<Rightarrow> Inl AttributeError
      | VOther \<Rightarrow> Inl Unmodelled)"

text \<open>The calls of \<^verbatim>\<open>LOG.w\<close> and \<^verbatim>\<open>LOG.v\<close>, with their messages.\<close>

datatype log_call = LOG_w string | LOG_v string

text \<open>\<^verbatim>\<open>str(n)\<close> of a natural number, for the f-strings.\<close>

fun str_nat :: "nat \<Rightarrow> string" where
  "str_nat n =
     (if n < 10 then [char_of (48 + n)]
      else str_nat (n div 10) @ [char_of (48 + n mod 10)])"

declare str_nat.simps [simp del]

text \<open>
  What the functions below work on: the tensors of the core, the log calls made, and,
  modelled from the spec, the environment of \<^verbatim>\<open>save\<close> and \<^verbatim>\<open>load\<close>: the files with what
  they hold, which paths can be opened for writing, whether \<^verbatim>\<open>torch\<close> can be imported and
  whether \<^verbatim>\<open>os\<close> has \<^verbatim>\<open>RTLD_DEEPBIND\<close> (which \<^verbatim>\<open>dirty_fix_pytorch_runtime_error\<close> reads).
  A file is a pickled parameter mapping, a torch checkpoint, or something else;
  \<^verbatim>\<open>pickle.load\<close> returns what \<^verbatim>\<open>pickle.dump\<close> has written.
\<close>

datatype 'd file_content = PickleFile "(string \<times> 'd pval) list" | TorchFile "(string \<times> 'd pval) list"
  | OtherFile

record 'd runtime =
  tensors :: "'d store"
  log_calls :: "log_call list"
  files :: "string \<Rightarrow> 'd file_content option"
  writable :: "string \<Rightarrow> bool"
  torch_installed :: bool
  has_RTLD_DEEPBIND :: bool

definition log_w :: "string \<Rightarrow> 'd runtime \<Rightarrow> 'd runtime" where
  "log_w msg rt = rt\<lparr>log_calls := log_calls rt @ [LOG_w msg]\<rparr>"

definition log_v :: "string \<Rightarrow> 'd runtime \<Rightarrow> 'd runtime" where
  "log_v msg rt = rt\<lparr>log_calls := log_calls rt @ [LOG_v msg]\<rparr>"

text \<open>
  The outer loop of \<^verbatim>\<open>load_parameters\<close>, \<^verbatim>\<open>for key in params.keys()\<close>, with \<^verbatim>\<open>n_failed\<close>.
  The mapping is the list of its items, in order.
\<close>

fun load_keys ::
  "module \<Rightarrow> (string \<times> 'd pval) list \<Rightarrow> nat \<Rightarrow> 'd runtime \<Rightarrow> py_error + nat \<times> 'd runtime" where
  "load_keys self [] n_failed rt = Inr (n_failed, rt)"
| "load_keys self ((key, value) # params) n_failed rt =
     (case resolve (VModule self) (split_on CHR ''.'' key) of
        Inl e \<Rightarrow> Inl e
      | Inr None \<Rightarrow>
          load_keys self params (n_failed + 1)
            (log_w (''load parameter '' @ key @ '' failed ...'') rt)
      | Inr (Some v) \<Rightarrow>
          (case assign_value v value
                  (tensors (log_v (''load parameter '' @ key @ '' success ...'') rt)) of
             Inl e \<Rightarrow> Inl e
           | Inr st \<Rightarrow>
               load_keys self params n_failed
                 ((log_v (''load parameter '' @ key @ '' success ...'') rt)\<lparr>tensors := st\<rparr>)))"

text \<open>\<^verbatim>\<open>Module.load_parameters\<close>\<close>

definition load_parameters ::
  "module \<Rightarrow> (string \<times> 'd pval) list \<Rightarrow> 'd runtime \<Rightarrow> py_error + 'd runtime" where
  "load_parameters self params rt =
     (case load_keys self params 0 rt of
        Inl e \<Rightarrow> Inl e
      | Inr (n_failed, rt') \<Rightarrow>
          if n_failed \<noteq> 0
          then Inr (log_w (''load total '' @ str_nat (length params) @ '' params, '' @
                            str_nat n_failed @ '' failed'') rt')
          else Inr rt')"

subsection \<open>save and load\<close>

text \<open>
  \<^verbatim>\<open>Module.save\<close>: \<^verbatim>\<open>params_dict[p.name()] = p.data\<close> for every parameter, then the
  dump. A name set twice keeps its place in the dict and takes the later value.
\<close>

definition save_m :: "module \<Rightarrow> string \<Rightarrow> 'd runtime \<Rightarrow> py_error + 'd runtime" where
  "save_m self path rt =
     (case parameters self (tensors rt) of
        (params, st) \<Rightarrow>
          let params_dict =
                foldl (\<lambda>d p. AList.update (var_name (st p)) (NdArray (var_data (st p))) d) [] params
          in if writable rt path
             then Inr (rt\<lparr>tensors := st, files := (files rt)(path \<mapsto> PickleFile params_dict)\<rparr>)
             else Inl OSError)"

text \<open>\<^verbatim>\<open>path.endswith(suffix)\<close>\<close>

definition endswith :: "string \<Rightarrow> string \<Rightarrow> bool" where
  "endswith s suffix =
     (length suffix \<le> length s \<and> drop (length s - length suffix) s = suffix)"

text \<open>Modelled from the spec: \<^verbatim>\<open>torch.load(path, map_location=...)\<close> on a checkpoint.\<close>

definition torch_load :: "'d runtime \<Rightarrow> string \<Rightarrow> py_error + (string \<times> 'd pval) list" where
  "torch_load rt path =
     (case files rt path of
        None \<Rightarrow> Inl OSError
      | Some (TorchFile params) \<Rightarrow> Inr params
      | Some _ \<Rightarrow> Inl NativeError)"

text \<open>
  \<^verbatim>\<open>Module.load\<close>. In the \<^verbatim>\<open>try\<close>, \<^verbatim>\<open>dirty_fix_pytorch_runtime_error()\<close> reads
  \<^verbatim>\<open>os.RTLD_DEEPBIND\<close> and \<^verbatim>\<open>import torch\<close> needs torch; whatever they raise becomes the
  \<^verbatim>\<open>RuntimeError\<close>.
\<close>

definition load_m :: "module \<Rightarrow> string \<Rightarrow> 'd runtime \<Rightarrow> py_error + 'd runtime" where
  "load_m self path rt =
     (if endswith path ''.pth'' then
        (if \<not> (has_RTLD_DEEPBIND rt \<and> torch_installed rt)
         then Inl (RuntimeError ''pytorch need to be installed when load pth format.'')
         else (case torch_load rt path of
                 Inl e \<Rightarrow> Inl e
               | Inr params \<Rightarrow> load_parameters self params rt))
      else
        (case files rt path of
           None \<Rightarrow> Inl OSError
         | Some (PickleFile params) \<Rightarrow> load_parameters self params rt
         | Some _ \<Rightarrow> Inl NativeError))"

text \<open>
  An example runtime: tensor \<open>p\<close> holds the number \<open>p\<close>, there are no files, every path can
  be written, and torch is not installed.
\<close>

definition ex_runtime :: "nat runtime" where
  "ex_runtime =
     \<lparr>tensors = (\<lambda>p. \<lparr>is_stop_grad = False, var_name = [], var_data = p\<rparr>),
      log_calls = [], files = (\<lambda>path. None), writable = (\<lambda>path. True),
      torch_installed = False, has_RTLD_DEEPBIND = True\<rparr>"

subsection \<open>What load_parameters is compared with\<close>

text \<open>
  Where the dotted path of a key leads; the log call a key gets; the keys that fail to
  resolve; the assignment a key that resolves to a tensor makes. A key is \<open>loadable\<close>
  when its path either fails to resolve (an attribute missing on a Module, an index
  past the end of a Sequential) or leads to a tensor, with a value that can be turned
  into an array.
\<close>

definition key_target :: "module \<Rightarrow> string \<Rightarrow> py_error + val option" where
  "key_target self key = resolve (VModule self) (split_on CHR ''.'' key)"

definition load_message :: "module \<Rightarrow> string \<times> 'd pval \<Rightarrow> log_call" where
  "load_message self kv =
     (if key_target self (fst kv) = Inr None
      then LOG_w (''load parameter '' @ fst kv @ '' failed ...'')
      else LOG_v (''load parameter '' @ fst kv @ '' success ...''))"

definition failed_keys :: "module \<Rightarrow> (string \<times> 'd pval) list \<Rightarrow> (string \<times> 'd pval) list" where
  "failed_keys self params = filter (\<lambda>kv. key_target self (fst kv) = Inr None) params"

definition assign_key :: "module \<Rightarrow> 'd store \<Rightarrow> string \<times> 'd pval \<Rightarrow> 'd store" where
  "assign_key self st kv =
     (case key_target self (fst kv) of
        Inr (Some (VVar i)) \<Rightarrow>
          (case param_data st (snd kv) of Inr d \<Rightarrow> assign i d st | Inl e \<Rightarrow> st)
      | _ \<Rightarrow> st)"

definition loadable :: "module \<Rightarrow> string \<times> 'd pval \<Rightarrow> bool" where
  "loadable self kv =
     (case key_target self (fst kv) of
        Inr None \<Rightarrow> True
      | Inr (Some (VVar i)) \<Rightarrow> snd kv \<noteq> PyOther
      | _ \<Rightarrow> False)"


subsection \<open>Trees whose parameter names can be read back\<close>

text \<open>
  A tree of plain Modules (no Sequential) in which every attribute name is an
  identifier, so contains no dot, and occurs once in its \<^verbatim>\<open>__dict__\<close>, as in a Python
  dict.
\<close>

function (sequential) plain_tree :: "module \<Rightarrow> bool"
and plain_items :: "(string \<times> val) list \<Rightarrow> bool" where
  "plain_tree (Module c d) =
     (c = Module_class \<and> distinct (map fst d) \<and> list_all (\<lambda>k. CHR ''.'' \<notin> set k) (map fst d) \<and>
      plain_items d)"
| "plain_items [] = True"
| "plain_items ((k, VModule m) # items) = (plain_tree m \<and> plain_items items)"
| "plain_items ((k, v) # items) = plain_items items"
  by pat_completeness auto
termination
  by (relation "measure (\<lambda>x. case x of
            Inl m \<Rightarrow> 2 * size m
          | Inr items \<Rightarrow> 2 * size_list (size_prod (\<lambda>_. 0) size) items + 1)")
     simp_all


text \<open>
  An example outside these trees: the root holds a tensor under the name \<^verbatim>\<open>a.b\<close> (set with
  \<^verbatim>\<open>setattr\<close>), and a child \<^verbatim>\<open>a\<close> whose attribute \<^verbatim>\<open>b\<close> is a Module.
\<close>

definition ex_dotted :: module where
  "ex_dotted = Module Module_class [(''a.b'', VVar 0),
     (''a'', VModule (Module Module_class [(''b'', VModule (Module Module_class []))]))]"
section \<open>Properties of flatten\<close>







section \<open>Properties of the exit hook\<close>

text \<open>
  C9: the exit hook calls \<^verbatim>\<open>core.sync_all(True)\<close>, once, if and only if the hooks hold
  neither an exit code nor an exception; if either is recorded it calls nothing. So
  after \<^verbatim>\<open>ExitHooks.exit\<close> with a code other than \<^verbatim>\<open>None\<close>, and after
  \<^verbatim>\<open>ExitHooks.exc_handler\<close>, no synchronisation is made.
\<close>

theorem jittor_exit_sync:
  "sync_all_calls (jittor_exit p) =
     (if exit_code (hooks p) = None \<and> exception (hooks p) = None
      then sync_all_calls p @ [True] else sync_all_calls p) \<and>
   hooks (jittor_exit p) = hooks p \<and>
   sync_all_calls (jittor_exit (p\<lparr>hooks := ExitHooks_exit (Some c) (hooks p)\<rparr>)) = sync_all_calls p \<and>
   sync_all_calls (jittor_exit (p\<lparr>hooks := exc_handler exc (hooks p)\<rparr>)) = sync_all_calls p"
  by (simp add: jittor_exit_def ExitHooks_exit_def exc_handler_def)

theorem jittor_exit_sync_witness:
  "sync_all_calls (jittor_exit \<lparr>hooks = ExitHooks_init, sync_all_calls = []\<rparr>) = [True] \<and>
   sync_all_calls (jittor_exit \<lparr>hooks = ExitHooks_exit (Some (ExitInt 0)) ExitHooks_init,
                                sync_all_calls = []\<rparr>) = [] \<and>
   sync_all_calls (jittor_exit \<lparr>hooks = exc_handler ValueError ExitHooks_init,
                                sync_all_calls = []\<rparr>) = []"
  using jittor_exit_sync[of "\<lparr>hooks = ExitHooks_init, sync_all_calls = []\<rparr>" "ExitInt 0" ValueError]
  by (simp add: ExitHooks_init_def ExitHooks_exit_def exc_handler_def)

section \<open>Properties of the traversal\<close>







lemma dfs_items_children:
  "dfs_items cb cbl parents self items k0 s =
     (if items = [] then k0 else Some (fst (last items)),
      foldl (\<lambda>s (k', c). dfs cb cbl (parents @ [self]) (Some k') c s) s (child_modules items))"
proof (induction items arbitrary: k0 s)
  case Nil
  show ?case by simp
next
  case (Cons a items)
  obtain k' v where a: "a = (k', v)" by (cases a)
  show ?case
    unfolding a using Cons[of "Some k'"] by (cases v) simp_all
qed

lemma n_children_child_modules:
  "length (filter is_Module (map snd items)) = length (child_modules items)"
  by (induction items rule: child_modules.induct) simp_all

text \<open>
  C3, as stated, fails: a node whose enter callback returns the stop value is visited,
  but \<^verbatim>\<open>dfs\<close> returns at once, so its leave callback is not called. With an enter
  callback that stops everywhere, the traversal of a root with one child calls enter on
  the root and nothing else.
\<close>

theorem dfs_stop_skips_leave_counterexample:
  "dfs_trace (\<lambda>parents k v n. True) (Module Module_class [(''c'', VModule (Module Module_class []))]) =
     [Enter [] None (Module Module_class [(''c'', VModule (Module Module_class []))]) 1]"
  by (simp add: dfs_trace_def dfs.simps record_enter_def eq_False_def)

text \<open>
  C3, amended. With \<open>n_children\<close> the number of Module-valued attributes of the node:
  the enter callback is called with \<open>(parents, k, self, n_children)\<close>. When it returns a
  value equal to \<^verbatim>\<open>False\<close>, \<^verbatim>\<open>dfs\<close> returns at once: no descendant is traversed and the
  leave callback is not called. Otherwise every Module-valued attribute is traversed, in
  \<^verbatim>\<open>__dict__\<close> order, with the node appended to the path and the attribute name as key;
  after that the leave callback, when one is given, is called with the same path, the
  node and \<open>n_children\<close>.
\<close>

theorem dfs_contract:
  "(eq_False (fst (callback parents k self (length (child_modules (dict self))) s)) \<longrightarrow>
      dfs callback callback_leave parents k self s =
        snd (callback parents k self (length (child_modules (dict self))) s)) \<and>
   (\<not> eq_False (fst (callback parents k self (length (child_modules (dict self))) s)) \<longrightarrow>
      (\<exists>k'. dfs callback callback_leave parents k self s =
         (case callback_leave of
            None \<Rightarrow>
              foldl (\<lambda>s (k', c). dfs callback callback_leave (parents @ [self]) (Some k') c s)
                (snd (callback parents k self (length (child_modules (dict self))) s))
                (child_modules (dict self))
          | Some leave \<Rightarrow>
              leave parents k' self (length (child_modules (dict self)))
                (foldl (\<lambda>s (k', c). dfs callback callback_leave (parents @ [self]) (Some k') c s)
                   (snd (callback parents k self (length (child_modules (dict self))) s))
                   (child_modules (dict self))))))"
proof (intro conjI impI)
  assume "eq_False (fst (callback parents k self (length (child_modules (dict self))) s))"
  then show "dfs callback callback_leave parents k self s =
        snd (callback parents k self (length (child_modules (dict self))) s)"
    unfolding dfs.simps[of _ _ parents k self s] n_children_child_modules Let_def
    by (cases "callback parents k self (length (child_modules (dict self))) s") simp
next
  assume "\<not> eq_False (fst (callback parents k self (length (child_modules (dict self))) s))"
  then show "\<exists>k'. dfs callback callback_leave parents k self s =
         (case callback_leave of
            None \<Rightarrow>
              foldl (\<lambda>s (k', c). dfs callback callback_leave (parents @ [self]) (Some k') c s)
                (snd (callback parents k self (length (child_modules (dict self))) s))
                (child_modules (dict self))
          | Some leave \<Rightarrow>
              leave parents k' self (length (child_modules (dict self)))
                (foldl (\<lambda>s (k', c). dfs callback callback_leave (parents @ [self]) (Some k') c s)
                   (snd (callback parents k self (length (child_modules (dict self))) s))
                   (child_modules (dict self))))"
    unfolding dfs.simps[of _ _ parents k self s] n_children_child_modules dfs_items_children
      Let_def
    by (cases "callback parents k self (length (child_modules (dict self))) s")
       (auto split: option.splits)
qed

theorem dfs_contract_witness:
  "\<exists>k'. dfs_trace (\<lambda>parents k v n. length parents = 1)
      (Module Module_class [(''c'', VModule (Module Module_class [(''d'', VModule (Module Module_class []))]))]) =
     [Enter [] None
        (Module Module_class [(''c'', VModule (Module Module_class [(''d'', VModule (Module Module_class []))]))]) 1,
      Enter [Module Module_class [(''c'', VModule (Module Module_class [(''d'', VModule (Module Module_class []))]))]]
        (Some ''c'') (Module Module_class [(''d'', VModule (Module Module_class []))]) 1,
      Leave [] k'
        (Module Module_class [(''c'', VModule (Module Module_class [(''d'', VModule (Module Module_class []))]))]) 1]"
proof -
  let ?root = "Module Module_class
      [(''c'', VModule (Module Module_class [(''d'', VModule (Module Module_class []))]))]"
  from dfs_contract[of "record_enter (\<lambda>parents k v n. length parents = 1)" "[]" None ?root "[]"
      "Some record_leave"]
  obtain k' where "dfs (record_enter (\<lambda>parents k v n. length parents = 1)) (Some record_leave)
      [] None ?root [] =
    record_leave [] k' ?root 1
      (dfs (record_enter (\<lambda>parents k v n. length parents = 1)) (Some record_leave) [?root]
         (Some ''c'') (Module Module_class [(''d'', VModule (Module Module_class []))])
         [Enter [] None ?root 1])"
    by (auto simp: record_enter_def eq_False_def)
  then show ?thesis
    by (intro exI[of _ k'])
       (simp add: dfs_trace_def dfs.simps[of _ _ "[?root]"] record_enter_def record_leave_def
          eq_False_def)
qed

section \<open>Properties of parameters, eval and train\<close>

lemma named_params_dict:
  "named_params path m = own_params path (dict m) @ named_params_items path (dict m)"
  by (cases m) simp

lemma name_all_append: "name_all (xs @ ys) vars = name_all ys (name_all xs vars)"
  by (simp add: name_all_def)

lemma name_vars_own:
  "name_vars stack items ps vars =
     (ps @ map snd (own_params (tl stack) items), name_all (own_params (tl stack) items) vars)"
  by (induction stack items ps vars rule: name_vars.induct)
     (simp_all add: name_all_def)

lemma dfs_parameters_aux:
  fixes s :: "nat list \<times> string list \<times> 'd store"
  shows "dfs parameters_callback (Some parameters_callback_leave) parents k m s =
     (fst s @ map snd (named_params (tl (fst (snd s) @ [str_key k])) m), fst (snd s),
      name_all (named_params (tl (fst (snd s) @ [str_key k])) m) (snd (snd s)))"
  and "fst (snd s) \<noteq> [] \<Longrightarrow>
   dfs_items parameters_callback (Some parameters_callback_leave) parents self items k0 s =
     (if items = [] then k0 else Some (fst (last items)),
      fst s @ map snd (named_params_items (tl (fst (snd s))) items), fst (snd s),
      name_all (named_params_items (tl (fst (snd s))) items) (snd (snd s)))"
proof (induction "parameters_callback :: (nat list \<times> string list \<times> 'd store) callback"
         "Some (parameters_callback_leave :: (nat list \<times> string list \<times> 'd store) callback_leave)"
         parents k m s
       and "parameters_callback :: (nat list \<times> string list \<times> 'd store) callback"
         "Some (parameters_callback_leave :: (nat list \<times> string list \<times> 'd store) callback_leave)"
         parents self items k0 s
       rule: dfs_dfs_items.induct)
  case (1 parents k self s)
  obtain ps stack vars where s: "s = (ps, stack, vars)" by (cases s) auto
  define stack' where "stack' = stack @ [str_key k]"
  define own where "own = own_params (tl stack') (dict self)"
  have cb: "parameters_callback parents k self (length (filter is_Module (map snd (dict self)))) s =
      (RetNone, (ps @ map snd own, stack', name_all own vars))"
    by (simp add: parameters_callback_def s name_vars_own stack'_def own_def)
  have ne: "fst (snd (ps @ map snd own, stack', name_all own vars)) \<noteq> []"
    by (simp add: stack'_def)
  have nf: "\<not> eq_False RetNone" by (simp add: eq_False_def)
  note ih = 1[OF refl cb[symmetric] nf ne]
  have ih': "dfs_items parameters_callback (Some parameters_callback_leave) parents self
      (dict self) k (ps @ map snd own, stack', name_all own vars) =
     (if dict self = [] then k else Some (fst (last (dict self))),
      (ps @ map snd own) @ map snd (named_params_items (tl stack') (dict self)), stack',
      name_all (named_params_items (tl stack') (dict self)) (name_all own vars))"
    using ih by simp
  have "dfs parameters_callback (Some parameters_callback_leave) parents k self s =
     ((ps @ map snd own) @ map snd (named_params_items (tl stack') (dict self)), stack,
      name_all (named_params_items (tl stack') (dict self)) (name_all own vars))"
    apply (subst dfs.simps)
    apply (simp only: Let_def cb prod.case nf if_False ih' option.case
        parameters_callback_leave_def)
    apply (simp add: stack'_def)
    done
  then show ?case
    by (simp add: s named_params_dict[of _ self] name_all_append stack'_def own_def)
next
  case (2 parents self k s)
  show ?case by (simp add: name_all_def)
next
  case (3 parents self k' v items k s)
  show ?case
  proof (cases v)
    case (VModule m)
    have a: "tl (fst (snd s) @ [k']) = tl (fst (snd s)) @ [k']"
      using 3(9) by (cases "fst (snd s)") simp_all
    show ?thesis
      using 3(1)[OF VModule] 3(2)[OF VModule] 3(9)
      by (simp add: VModule a name_all_append)
  qed (use 3 in simp_all)
qed

lemma parameters_named:
  "parameters m vars = (map snd (named_params [] m), name_all (named_params [] m) vars)"
  by (simp add: parameters_def dfs_parameters_aux(1))





lemma getattr_is_train:
  "py_getattr m ''is_train'' = (case map_of (dict m) ''is_train'' of None \<Rightarrow> Missing | Some v \<Rightarrow> Found v)"
  by (simp add: py_getattr_def Module_methods_def split: option.splits)



lemma cls_touch: "cls_of (touch_is_train b m) = cls_of m"
  by (auto simp: touch_is_train_def getattr_is_train py_setattr_def split: option.splits lookup.splits)






















section \<open>Properties of flag_scope\<close>






section \<open>Properties of log_capture_scope\<close>

text \<open>
  C6: while the guard \<^verbatim>\<open>single_log_capture\<close> is set, \<^verbatim>\<open>__enter__\<close> fails its assertion
  and changes nothing, so no second capture is started. A successful \<^verbatim>\<open>__enter__\<close> starts
  one capture and sets the guard, so entering any other scope after it fails in that
  way; a successful \<^verbatim>\<open>__exit__\<close> stops the capture and clears the guard.
\<close>

theorem single_log_capture_guard:
  "(truthy (single_log_capture g) \<longrightarrow>
      log_capture_scope_enter N jt_flags g = (Inl AssertionError, g)) \<and>
   (\<forall>r g'. log_capture_scope_enter N jt_flags g = (Inr r, g') \<longrightarrow>
      single_log_capture g' = Some True \<and>
      capture_starts (LOG g') = Suc (capture_starts (LOG g)) \<and>
      log_capture_scope_enter N jt_flags' g' = (Inl AssertionError, g')) \<and>
   (\<forall>logs flags_bk r g'. log_capture_scope_exit N logs flags_bk g = (Inr r, g') \<longrightarrow>
      single_log_capture g' = None \<and> \<not> capturing (LOG g'))"
proof (intro conjI allI impI)
  assume "truthy (single_log_capture g)"
  then show "log_capture_scope_enter N jt_flags g = (Inl AssertionError, g)"
    by (simp add: log_capture_scope_enter_def)
next
  fix r g'
  assume a: "log_capture_scope_enter N jt_flags g = (Inr r, g')"
  then have nt: "\<not> truthy (single_log_capture g)"
    by (auto simp: log_capture_scope_enter_def)
  obtain e bk fl where en: "flag_scope_enter N jt_flags
      (flag_values (g\<lparr>single_log_capture := Some True,
                       LOG := log_capture_start (LOG g)\<rparr>)) = (e, bk, fl)"
    using prod_cases3 by blast
  have g': "g' = g\<lparr>single_log_capture := Some True, LOG := log_capture_start (LOG g),
                   flag_values := fl\<rparr>"
    using a nt en by (cases e) (auto simp: log_capture_scope_enter_def Let_def)
  show "single_log_capture g' = Some True" by (simp add: g')
  show "capture_starts (LOG g') = Suc (capture_starts (LOG g))"
    by (simp add: g' log_capture_start_def)
  show "log_capture_scope_enter N jt_flags' g' = (Inl AssertionError, g')"
    by (simp add: g' log_capture_scope_enter_def truthy_def)
next
  fix logs flags_bk r g'
  assume a: "log_capture_scope_exit N logs flags_bk g = (Inr r, g')"
  then show "single_log_capture g' = None"
    by (auto simp: log_capture_scope_exit_def Let_def split: prod.splits option.splits)
  from a show "\<not> capturing (LOG g')"
    by (auto simp: log_capture_scope_exit_def Let_def log_capture_stop_def
        split: prod.splits option.splits)
qed

theorem single_log_capture_guard_witness:
  "fst (log_capture_scope_enter ex_native [(''log_v'', 5)] ex_globals) = Inr ([], [(''log_v'', 0)]) \<and>
   fst (log_capture_scope_enter ex_native []
          (snd (log_capture_scope_enter ex_native [(''log_v'', 5)] ex_globals))) = Inl AssertionError \<and>
   capture_starts (LOG (snd (log_capture_scope_enter ex_native []
          (snd (log_capture_scope_enter ex_native [(''log_v'', 5)] ex_globals))))) = 1"
proof -
  obtain g' where e: "log_capture_scope_enter ex_native [(''log_v'', 5)] ex_globals =
      (Inr ([], [(''log_v'', 0)]), g')"
    by (simp add: log_capture_scope_enter_def truthy_def ex_globals_def Let_def
        flag_scope_enter_def getattr_flags_def setattr_flags_def ex_native_def ex_flags_def)
  from single_log_capture_guard[of ex_globals ex_native "[(''log_v'', 5)]" "[]"] e
  have c: "capture_starts (LOG g') = Suc (capture_starts (LOG ex_globals))"
    and f: "log_capture_scope_enter ex_native [] g' = (Inl AssertionError, g')"
    by blast+
  show ?thesis
    unfolding e snd_conv fst_conv f c by (simp add: ex_globals_def)
qed

section \<open>Properties of load_parameters\<close>

lemma load_keys_result:
  "list_all (loadable self) params \<Longrightarrow>
   load_keys self params n rt =
     Inr (n + length (failed_keys self params),
          rt\<lparr>tensors := foldl (assign_key self) (tensors rt) params,
             log_calls := log_calls rt @ map (load_message self) params\<rparr>)"
proof (induction params arbitrary: n rt)
  case Nil
  show ?case by (simp add: failed_keys_def)
next
  case (Cons kv params)
  obtain key "value" where kv: "kv = (key, value)" by (cases kv)
  from Cons.prems have l: "loadable self (key, value)" and rest: "list_all (loadable self) params"
    by (simp_all add: kv)
  note ih = Cons.IH[OF rest]
  show ?case
  proof (cases "key_target self key = Inr None")
    case True
    then show ?thesis
      by (simp add: kv ih key_target_def[symmetric] failed_keys_def load_message_def
          assign_key_def log_w_def)
  next
    case False
    with l obtain i where t: "key_target self key = Inr (Some (VVar i))" and v: "value \<noteq> PyOther"
      by (auto simp: loadable_def split: sum.splits option.splits val.splits)
    obtain d where d: "param_data (tensors rt) value = Inr d"
      using v by (cases "value") (simp_all add: param_data_def)
    let ?rt1 = "(log_v (''load parameter '' @ key @ '' success ...'') rt)
        \<lparr>tensors := assign i d (tensors rt)\<rparr>"
    have step: "load_keys self (kv # params) n rt = load_keys self params n ?rt1"
      using t d by (simp add: kv key_target_def assign_value_def log_v_def)
    have a: "assign_key self (tensors rt) (key, value) = assign i d (tensors rt)"
      by (simp add: assign_key_def t d)
    have f: "failed_keys self (kv # params) = failed_keys self params"
      using False by (simp add: failed_keys_def kv)
    have m: "load_message self (key, value) = LOG_v (''load parameter '' @ key @ '' success ...'')"
      using False by (simp add: load_message_def)
    show ?thesis
      unfolding step ih f by (simp add: kv a m log_v_def)
  qed
qed


text \<open>
  C2, as stated, fails: the call can raise. A key that resolves to something other than
  a tensor is not skipped: for the key \<^verbatim>\<open>sub\<close>, which names a child Module, the walk
  succeeds and \<^verbatim>\<open>v.assign\<close> raises \<^verbatim>\<open>AttributeError\<close>, since \<^verbatim>\<open>class Module\<close> has no
  \<^verbatim>\<open>assign\<close>.
\<close>

theorem load_parameters_module_target_counterexample:
  "load_parameters ex_tree [(''sub'', NdArray 5)] ex_runtime = Inl AttributeError"
  by (simp add: load_parameters_def ex_tree_def py_getattr_def Module_methods_def
      assign_value_def)

text \<open>
  C2, amended: when every key of the mapping is loadable, the call completes without
  raising. A key that fails to resolve is skipped and gets one warning; a key that
  resolves gets its tensor assigned the stored value, in the order of the mapping; and
  a last warning with the number of keys and of failures is made exactly when some key
  has failed.
\<close>

theorem load_parameters_completes:
  assumes "list_all (loadable self) params"
  shows "\<exists>rt'. load_parameters self params rt = Inr rt' \<and>
     tensors rt' = foldl (assign_key self) (tensors rt) params \<and>
     log_calls rt' = log_calls rt @ map (load_message self) params @
       (if failed_keys self params = [] then []
        else [LOG_w (''load total '' @ str_nat (length params) @ '' params, '' @
                      str_nat (length (failed_keys self params)) @ '' failed'')])"
  by (simp add: load_parameters_def load_keys_result[OF assms] log_w_def)

theorem load_parameters_completes_witness:
  "map_sum id log_calls
     (load_parameters ex_tree [(''w'', NdArray 5), (''nope'', NdArray 7), (''sub.b'', JtVar 9)]
        ex_runtime) =
     Inr [LOG_v ''load parameter w success ...'',
          LOG_w ''load parameter nope failed ...'',
          LOG_v ''load parameter sub.b success ...'',
          LOG_w ''load total 3 params, 1 failed''] \<and>
   map_sum id (\<lambda>rt. map (\<lambda>p. var_data (tensors rt p)) [0, 1, 2])
     (load_parameters ex_tree [(''w'', NdArray 5), (''nope'', NdArray 7), (''sub.b'', JtVar 9)]
        ex_runtime) = Inr [5, 9, 2]"
proof -
  let ?params = "[(''w'', NdArray (5::nat)), (''nope'', NdArray 7), (''sub.b'', JtVar 9)]"
  have t: "key_target ex_tree ''w'' = Inr (Some (VVar 0))"
    "key_target ex_tree ''nope'' = Inr None"
    "key_target ex_tree ''sub.b'' = Inr (Some (VVar 1))"
    by (simp_all add: key_target_def ex_tree_def py_getattr_def Module_methods_def)
  have l: "list_all (loadable ex_tree) ?params"
    by (simp add: loadable_def t)
  have f: "failed_keys ex_tree ?params = [(''nope'', NdArray 7)]"
    by (simp add: failed_keys_def t)
  have s: "str_nat (Suc (Suc (Suc 0))) = ''3''" "str_nat (Suc 0) = ''1''"
    by code_simp+
  from load_parameters_completes[OF l, of ex_runtime] obtain rt' where
    r: "load_parameters ex_tree ?params ex_runtime = Inr rt'"
    and ts: "tensors rt' = foldl (assign_key ex_tree) (tensors ex_runtime) ?params"
    and lg: "log_calls rt' = log_calls ex_runtime @ map (load_message ex_tree) ?params @
       (if failed_keys ex_tree ?params = [] then []
        else [LOG_w (''load total '' @ str_nat (length ?params) @ '' params, '' @
                      str_nat (length (failed_keys ex_tree ?params)) @ '' failed'')])"
    by blast
  show ?thesis
    unfolding r
    by (simp add: ts lg f s load_message_def t assign_key_def param_data_def assign_def
        ex_runtime_def)
qed

section \<open>Properties of load\<close>

text \<open>
  C8: for a path that ends in \<^verbatim>\<open>.pth\<close>, when torch is not installed \<^verbatim>\<open>Module.load\<close>
  raises the \<^verbatim>\<open>RuntimeError\<close>; nothing is read and no parameter is loaded.
\<close>

theorem load_pth_without_torch:
  "endswith path ''.pth'' \<Longrightarrow> \<not> torch_installed rt \<Longrightarrow>
   load_m self path rt = Inl (RuntimeError ''pytorch need to be installed when load pth format.'')"
  by (simp add: load_m_def)

theorem load_pth_without_torch_witness:
  "load_m ex_tree ''model.pth'' ex_runtime =
     Inl (RuntimeError ''pytorch need to be installed when load pth format.'')"
  using load_pth_without_torch[of "''model.pth''" ex_runtime ex_tree]
  by (simp add: endswith_def ex_runtime_def)

section \<open>Properties of save and load\<close>

lemma split_on_none: "c \<notin> set x \<Longrightarrow> split_on c x = [x]"
  by (induction x) auto

lemma split_on_append: "c \<notin> set x \<Longrightarrow> split_on c (x @ c # rest) = x # split_on c rest"
  by (induction x) auto

lemma split_join:
  "names \<noteq> [] \<Longrightarrow> \<forall>n \<in> set names. CHR ''.'' \<notin> set n \<Longrightarrow>
   split_on CHR ''.'' (join_dot names) = names"
proof (induction names rule: join_dot.induct)
  case 1
  then show ?case by simp
next
  case (2 x)
  then show ?case by (simp add: split_on_none)
next
  case (3 x y zs)
  then show ?case by (simp add: split_on_append)
qed

lemma own_params_set:
  "set (own_params pre d) = {(pre @ [k], p) | k p. (k, VVar p) \<in> set d}"
  by (induction pre d rule: own_params.induct) auto

lemma plain_items_child:
  "plain_items items \<Longrightarrow> (k, VModule c) \<in> set items \<Longrightarrow> plain_tree c"
  by (induction items rule: child_modules.induct) auto

lemma size_child:
  "(k, VModule c) \<in> set d \<Longrightarrow> size c < Suc (size_list (size_prod (\<lambda>x. 0) size) d)"
  by (induction d) auto

lemma named_params_items_set:
  "set (named_params_items pre items) =
     (\<Union>(k, v) \<in> set items. case v of VModule c \<Rightarrow> set (named_params (pre @ [k]) c) | _ \<Rightarrow> {})"
  by (induction items rule: child_modules.induct) auto

lemma named_params_resolve:
  "plain_tree m \<Longrightarrow> (path, p) \<in> set (named_params pre m) \<Longrightarrow>
     \<exists>suf. path = pre @ suf \<and> suf \<noteq> [] \<and> (\<forall>n \<in> set suf. CHR ''.'' \<notin> set n) \<and>
           resolve (VModule m) suf = Inr (Some (VVar p))"
proof (induction m arbitrary: path p pre rule: measure_induct_rule[where f = size])
  case (less m)
  obtain c d where m: "m = Module c d" by (cases m)
  from less.prems(1) have pl: "c = Module_class" "distinct (map fst d)"
    "list_all (\<lambda>k. CHR ''.'' \<notin> set k) (map fst d)" "plain_items d"
    by (simp_all add: m)
  have nd: "CHR ''.'' \<notin> set k" if "(k, v) \<in> set d" for k v
    using pl(3) that by (force simp: list_all_iff)
  have ga: "py_getattr m k = Found v" if "(k, v) \<in> set d" for k v
    using that pl(2) by (simp add: py_getattr_def m)
  from less.prems(2) consider
    (own) "(path, p) \<in> set (own_params pre d)" |
    (sub) "(path, p) \<in> set (named_params_items pre d)"
    by (auto simp: m)
  then show ?case
  proof cases
    case own
    then obtain k where k: "path = pre @ [k]" "(k, VVar p) \<in> set d"
      by (auto simp: own_params_set)
    show ?thesis
      using nd[OF k(2)] ga[OF k(2)] pl(1)
      by (intro exI[of _ "[k]"]) (simp add: k(1) m)
  next
    case sub
    then obtain k c' where k: "(k, VModule c') \<in> set d"
      "(path, p) \<in> set (named_params (pre @ [k]) c')"
      by (auto simp: named_params_items_set split: val.splits)
    have sz: "size c' < size m"
      using size_child[OF k(1)] by (simp add: m)
    have "plain_tree c'" using plain_items_child[OF pl(4) k(1)] .
    from less.IH[OF sz this k(2)] obtain suf where
      s: "path = (pre @ [k]) @ suf" "suf \<noteq> []" "\<forall>n \<in> set suf. CHR ''.'' \<notin> set n"
         "resolve (VModule c') suf = Inr (Some (VVar p))"
      by blast
    show ?thesis
      using s nd[OF k(1)] ga[OF k(1)] pl(1)
      by (intro exI[of _ "k # suf"]) (simp add: m)
  qed
qed


lemma data_name_all: "var_data (name_all nps st p) = var_data (st p)"
proof (induction nps rule: rev_induct)
  case Nil
  show ?case by (simp add: name_all_def)
next
  case (snoc a nps)
  obtain path q where a: "a = (path, q)" by (cases a)
  have "name_all (nps @ [a]) st = set_name q (join_dot path) (name_all nps st)"
    by (simp add: name_all_def a)
  then show ?case using snoc by (auto simp: set_name_def)
qed

lemma name_name_all:
  "p \<in> snd ` set nps \<Longrightarrow>
   \<exists>path. (path, p) \<in> set nps \<and> var_name (name_all nps st p) = join_dot path"
proof (induction nps rule: rev_induct)
  case Nil
  then show ?case by simp
next
  case (snoc a nps)
  obtain path q where a: "a = (path, q)" by (cases a)
  have u: "name_all (nps @ [a]) st = set_name q (join_dot path) (name_all nps st)"
    by (simp add: name_all_def a)
  show ?case
  proof (cases "p = q")
    case True
    then show ?thesis
      unfolding u by (intro exI[of _ path]) (simp add: a set_name_def)
  next
    case False
    then have "p \<in> snd ` set nps" using snoc.prems by (auto simp: a)
    from snoc.IH[OF this] obtain path' where
      "(path', p) \<in> set nps" "var_name (name_all nps st p) = join_dot path'" by blast
    then show ?thesis using False
      unfolding u by (intro exI[of _ path']) (simp add: set_name_def)
  qed
qed

lemma set_update_subset: "set (AList.update k v d) \<subseteq> insert (k, v) (set d)"
  by (induction d) auto

lemma save_dict_entries:
  "(k, v) \<in> set (foldl (\<lambda>d p. AList.update (nm p) (NdArray (dt p)) d) d0 ps) \<Longrightarrow>
   (k, v) \<in> set d0 \<or> (\<exists>q \<in> set ps. k = nm q \<and> v = NdArray (dt q))"
proof (induction ps arbitrary: d0)
  case Nil
  then show ?case by simp
next
  case (Cons q ps)
  from Cons.IH[of "AList.update (nm q) (NdArray (dt q)) d0"] Cons.prems
  have "(k, v) \<in> set (AList.update (nm q) (NdArray (dt q)) d0) \<or>
      (\<exists>q \<in> set ps. k = nm q \<and> v = NdArray (dt q))" by simp
  then show ?case
    using set_update_subset[of "nm q" "NdArray (dt q)" d0] by auto
qed

lemma save_dict_keys:
  "fst ` set (foldl (\<lambda>d p. AList.update (nm p) (NdArray (dt p)) d) d0 ps) =
     fst ` set d0 \<union> nm ` set ps"
  by (induction ps arbitrary: d0) (auto simp: dom_update)

lemma fold_assign:
  assumes "\<And>kv st. kv \<in> set L \<Longrightarrow> step st kv = assign (tgt kv) (dt (tgt kv)) st"
  shows "var_data (foldl step st L p) = (if p \<in> tgt ` set L then dt p else var_data (st p))"
  using assms
proof (induction L rule: rev_induct)
  case Nil
  show ?case by simp
next
  case (snoc a L)
  have "var_data (foldl step st L p) = (if p \<in> tgt ` set L then dt p else var_data (st p))"
    by (rule snoc.IH) (use snoc.prems in auto)
  moreover have "foldl step st (L @ [a]) = assign (tgt a) (dt (tgt a)) (foldl step st L)"
    using snoc.prems[of a] by simp
  ultimately show ?case by (auto simp: assign_def)
qed


text \<open>
  C5, as stated, fails, in two ways. \<^verbatim>\<open>load\<close> chooses the format by the extension of the
  path, while \<^verbatim>\<open>save\<close> always writes the pickled mapping: for a path that ends in \<^verbatim>\<open>.pth\<close>
  the file \<^verbatim>\<open>save\<close> has written goes to the torch branch of \<^verbatim>\<open>load\<close>, and without torch
  that raises and no parameter is assigned. And \<^verbatim>\<open>load_parameters\<close> reads a name back by
  splitting it at the dots: the tensor saved under the attribute name \<^verbatim>\<open>a.b\<close> is looked
  up as attribute \<^verbatim>\<open>b\<close> of attribute \<^verbatim>\<open>a\<close>, which here is a Module, and \<^verbatim>\<open>v.assign\<close>
  raises.
\<close>

theorem save_load_counterexample:
  "and_then (save_m ex_tree ''a.pth'' ex_runtime) (load_m ex_tree ''a.pth'') =
     Inl (RuntimeError ''pytorch need to be installed when load pth format.'') \<and>
   and_then (save_m ex_dotted ''a.pkl'' ex_runtime) (load_m ex_dotted ''a.pkl'') =
     Inl AttributeError"
proof -
  have p: "parameters ex_dotted st = ([0], set_name 0 ''a.b'' st)" for st :: "nat store"
    by (simp add: parameters_named ex_dotted_def name_all_def)
  have "and_then (save_m ex_tree ''a.pth'' ex_runtime) (load_m ex_tree ''a.pth'') =
     Inl (RuntimeError ''pytorch need to be installed when load pth format.'')"
    by (simp add: and_then_def save_m_def load_m_def endswith_def ex_runtime_def
        split: prod.splits)
  moreover have "and_then (save_m ex_dotted ''a.pkl'' ex_runtime) (load_m ex_dotted ''a.pkl'') =
     Inl AttributeError"
    by (simp add: and_then_def save_m_def p load_m_def endswith_def ex_runtime_def
        load_parameters_def set_name_def)
       (simp add: ex_dotted_def py_getattr_def Module_methods_def assign_value_def log_v_def)
  ultimately show ?thesis by simp
qed

text \<open>
  C5, amended: for a path that does not end in \<^verbatim>\<open>.pth\<close> and can be written, and a tree of
  plain Modules whose attribute names contain no dot, \<^verbatim>\<open>save(path)\<close> returns, and
  \<^verbatim>\<open>load(path)\<close> into the same tree structure with any other tensor contents returns and
  leaves every parameter of the tree holding exactly the array data it had when saved
  (every other tensor keeps its data).
\<close>

theorem save_load_roundtrip:
  fixes rt :: "'d runtime"
  assumes "plain_tree self" "writable rt path" "\<not> endswith path ''.pth''"
  shows "\<exists>rt1. save_m self path rt = Inr rt1 \<and>
     (\<forall>st2. \<exists>rt3. load_m self path (rt1\<lparr>tensors := st2\<rparr>) = Inr rt3 \<and>
        (\<forall>p. var_data (tensors rt3 p) =
           (if p \<in> set (fst (parameters self (tensors rt))) then var_data (tensors rt p)
            else var_data (st2 p))))"
proof -
  define NP where "NP = named_params [] self"
  define ps where "ps = map snd NP"
  define st where "st = name_all NP (tensors rt)"
  define nm where "nm = (\<lambda>p. var_name (st p))"
  define dt where "dt = (\<lambda>p. var_data (tensors rt p))"
  define D where "D = foldl (\<lambda>d p. AList.update (nm p) (NdArray (dt p)) d) [] ps"
  have par: "parameters self (tensors rt) = (ps, st)"
    by (simp add: parameters_named NP_def ps_def st_def)
  have dt': "var_data (st p) = dt p" for p
    by (simp add: st_def dt_def data_name_all)
  have sv: "save_m self path rt =
      Inr (rt\<lparr>tensors := st, files := (files rt)(path \<mapsto> PickleFile D)\<rparr>)"
    using assms(2) by (simp add: save_m_def par D_def nm_def dt')
  have tgt: "key_target self (nm p) = Inr (Some (VVar p))" if "p \<in> set ps" for p
  proof -
    from that have "p \<in> snd ` set NP" by (simp add: ps_def)
    from name_name_all[OF this, of "tensors rt"] obtain path where
      pa: "(path, p) \<in> set NP" and n: "nm p = join_dot path"
      by (auto simp: nm_def st_def)
    from named_params_resolve[OF assms(1) pa[unfolded NP_def]] have
      "path \<noteq> []" "\<forall>n \<in> set path. CHR ''.'' \<notin> set n"
      "resolve (VModule self) path = Inr (Some (VVar p))"
      by auto
    then show ?thesis
      by (simp add: key_target_def n split_join)
  qed
  have ent: "\<exists>q \<in> set ps. kv = (nm q, NdArray (dt q))" if "kv \<in> set D" for kv
    using save_dict_entries[of "fst kv" "snd kv" nm dt "[]" ps] that
    by (cases kv) (auto simp: D_def)
  have keys: "fst ` set D = nm ` set ps"
    by (simp add: D_def save_dict_keys)
  define tg where "tg = (\<lambda>kv :: string \<times> 'd pval.
      case key_target self (fst kv) of Inr (Some (VVar i)) \<Rightarrow> i | _ \<Rightarrow> 0)"
  have tg: "tg (nm q, v) = q" if "q \<in> set ps" for q v
    by (simp add: tg_def tgt[OF that])
  have step: "assign_key self s kv = assign (tg kv) (dt (tg kv)) s" if "kv \<in> set D" for kv s
  proof -
    from ent[OF that] obtain q where q: "q \<in> set ps" "kv = (nm q, NdArray (dt q))" by blast
    show ?thesis
      by (simp add: q(2) tg[OF q(1)] assign_key_def tgt[OF q(1)] param_data_def)
  qed
  have ld: "list_all (loadable self) D"
  proof -
    have "loadable self kv" if "kv \<in> set D" for kv
    proof -
      from ent[OF that] obtain q where q: "q \<in> set ps" "kv = (nm q, NdArray (dt q))" by blast
      show ?thesis by (simp add: q(2) loadable_def tgt[OF q(1)])
    qed
    then show ?thesis by (simp add: list_all_iff)
  qed
  have img: "tg ` set D = set ps"
  proof
    show "tg ` set D \<subseteq> set ps"
    proof
      fix x assume "x \<in> tg ` set D"
      then obtain kv where kv: "kv \<in> set D" "x = tg kv" by blast
      from ent[OF kv(1)] obtain q where q: "q \<in> set ps" "kv = (nm q, NdArray (dt q))" by blast
      show "x \<in> set ps" by (simp add: kv(2) q(2) tg[OF q(1)] q(1))
    qed
    show "set ps \<subseteq> tg ` set D"
    proof
      fix p assume p: "p \<in> set ps"
      then have "nm p \<in> fst ` set D" by (simp add: keys)
      then obtain v where "(nm p, v) \<in> set D" by force
      then have "tg (nm p, v) \<in> tg ` set D" by (rule imageI)
      then show "p \<in> tg ` set D" by (simp add: tg[OF p])
    qed
  qed
  have ld': "\<exists>rt3. load_m self path
        (rt\<lparr>tensors := st, files := (files rt)(path \<mapsto> PickleFile D)\<rparr>\<lparr>tensors := st2\<rparr>) = Inr rt3 \<and>
      (\<forall>p. var_data (tensors rt3 p) =
         (if p \<in> set ps then var_data (tensors rt p) else var_data (st2 p)))" for st2
  proof -
    let ?rt = "rt\<lparr>tensors := st, files := (files rt)(path \<mapsto> PickleFile D)\<rparr>\<lparr>tensors := st2\<rparr>"
    have "var_data (foldl (assign_key self) st2 D p) =
        (if p \<in> tg ` set D then dt p else var_data (st2 p))" for p
      by (rule fold_assign) (rule step)
    then show ?thesis
      using assms(3)
      by (simp add: load_m_def load_parameters_def load_keys_result[OF ld] img log_w_def
          dt_def)
  qed
  show ?thesis
    using ld' by (simp add: sv par)
qed

theorem save_load_roundtrip_witness:
  "map_sum id (\<lambda>rt. map (\<lambda>p. var_data (tensors rt p)) [0, 1, 2])
     (and_then (save_m ex_tree ''a.pkl'' ex_runtime)
        (\<lambda>rt. load_m ex_tree ''a.pkl''
           (rt\<lparr>tensors := (\<lambda>p. \<lparr>is_stop_grad = False, var_name = [], var_data = 77\<rparr>)\<rparr>))) =
   Inr [0, 1, 77]"
proof -
  have a: "plain_tree ex_tree" "writable ex_runtime ''a.pkl''" "\<not> endswith ''a.pkl'' ''.pth''"
    by (simp_all add: ex_tree_def ex_runtime_def endswith_def)
  have ps: "fst (parameters ex_tree (tensors ex_runtime)) = [0, 1, 0]"
    by (simp add: parameters_named ex_tree_def)
  from save_load_roundtrip[OF a] obtain rt1 where
    s: "save_m ex_tree ''a.pkl'' ex_runtime = Inr rt1"
    and l: "\<And>st2. \<exists>rt3. load_m ex_tree ''a.pkl'' (rt1\<lparr>tensors := st2\<rparr>) = Inr rt3 \<and>
        (\<forall>p. var_data (tensors rt3 p) =
           (if p \<in> set (fst (parameters ex_tree (tensors ex_runtime)))
            then var_data (tensors ex_runtime p) else var_data (st2 p)))"
    by blast
  from l[of "\<lambda>p. \<lparr>is_stop_grad = False, var_name = [], var_data = 77\<rparr>"] obtain rt3 where
    r: "load_m ex_tree ''a.pkl''
          (rt1\<lparr>tensors := (\<lambda>p. \<lparr>is_stop_grad = False, var_name = [], var_data = 77\<rparr>)\<rparr>) = Inr rt3"
    and d: "\<And>p. var_data (tensors rt3 p) =
           (if p \<in> set (fst (parameters ex_tree (tensors ex_runtime)))
            then var_data (tensors ex_runtime p) else 77)"
    by auto
  show ?thesis
    by (simp add: s r and_then_def d ps) (simp add: ex_runtime_def)
qed

end
